theory Spec2Isabelle
  imports Complex_Main "HOL-Library.Char_ord" "HOL-Library.List_Lexorder" "HOL-Library.Multiset"
begin

section \<open>The entry model of time\_tracker.py\<close>

text \<open>
  The dataclass \<^verbatim>\<open>CsvEntry\<close> of the source. The source's field \<^verbatim>\<open>context\<close> is
  called \<open>context_label\<close> here, because the source's name is a reserved word of the
  theory language. \<open>start_time\<close> is the text \<^verbatim>\<open>HH:MM\<close>, kept as a string as in the
  source: the sort key of the entry list is this string.
\<close>

record CsvEntry =
  description :: string
  start_time :: string
  context_label :: string
  is_finish :: bool
  is_minor :: bool

text \<open>
  The exceptions of Python that the program can raise. \<open>ValueError\<close> is what
  \<^verbatim>\<open>datetime.strptime\<close> raises on a text that is not \<^verbatim>\<open>HH:MM\<close>, \<open>TypeError\<close> is
  what the constructor call \<^verbatim>\<open>CsvEntry(**d)\<close> raises on a row with more than five
  fields, \<open>ZeroDivisionError\<close> is what \<^verbatim>\<open>float(total_time) / major_time\<close> raises
  when \<^verbatim>\<open>major_time\<close> is 0, \<open>OSError\<close> is a failing file operation.
\<close>

datatype error = ValueError | TypeError | ZeroDivisionError | OSError

text \<open>The wall clock, as far as the program reads it: \<^verbatim>\<open>datetime.now()\<close>.\<close>

record clock =
  hour :: nat
  minute :: nat

subsection \<open>Parsing and printing \<^verbatim>\<open>%H:%M\<close>\<close>

text \<open>
  \<^verbatim>\<open>datetime.strptime(t, '%H:%M')\<close> turns the format into the regular expression
  \<^verbatim>\<open>(?P<H>2[0-3]|[0-1]\d|\d):(?P<M>[0-5]\d|\d)\<close>, matches it at the start of the
  text, and raises ValueError when there is no match or when text remains after the match.
  The matcher tries the alternatives from left to right and backtracks; it is modelled by
  parsers that return every way to match, in the order the matcher tries them, each with
  the text matched and the text that remains. Strings are 8-bit characters here, so the
  digits are the ASCII digits.
\<close>

type_synonym regex = "string \<Rightarrow> (string \<times> string) list"

definition one_of :: "string \<Rightarrow> regex" where
  "one_of cs s = (case s of [] \<Rightarrow> [] | c # r \<Rightarrow> if c \<in> set cs then [([c], r)] else [])"

definition seq :: "regex \<Rightarrow> regex \<Rightarrow> regex" where
  "seq p q s = concat (map (\<lambda>(a, r). map (\<lambda>(b, r'). (a @ b, r')) (q r)) (p s))"

definition alt :: "regex \<Rightarrow> regex \<Rightarrow> regex" where
  "alt p q s = p s @ q s"

definition digit :: regex where
  "digit = one_of ''0123456789''"

definition re_H :: regex where
  "re_H = alt (seq (one_of ''2'') (one_of ''0123'')) (alt (seq (one_of ''01'') digit) digit)"

definition re_M :: regex where
  "re_M = alt (seq (one_of ''012345'') digit) digit"

definition digit_value :: "char \<Rightarrow> nat" where
  "digit_value c = of_char c - 48"

definition int_of_digits :: "string \<Rightarrow> nat" where
  "int_of_digits s = foldl (\<lambda>a c. 10 * a + digit_value c) 0 s"

definition matches_HM :: "string \<Rightarrow> (string \<times> string \<times> string) list" where
  "matches_HM s =
     concat (map (\<lambda>(h, r1).
       concat (map (\<lambda>(c, r2).
         map (\<lambda>(m, r3). (h, m, r3)) (re_M r2)) (one_of '':'' r1))) (re_H s))"

definition strptime :: "string \<Rightarrow> error + clock" where
  "strptime s =
     (case matches_HM s of
        [] \<Rightarrow> Inl ValueError
      | (h, m, r) # _ \<Rightarrow>
          if r \<noteq> [] then Inl ValueError
          else Inr \<lparr>hour = int_of_digits h, minute = int_of_digits m\<rparr>)"

text \<open>
  \<^verbatim>\<open>strftime('%H:%M')\<close> prints the hour and the minute with two decimal digits each.
  A \<^verbatim>\<open>datetime\<close> has an hour below 24 and a minute below 60, so two digits suffice.
\<close>

definition digit_char :: "nat \<Rightarrow> char" where
  "digit_char n = ''0123456789'' ! (n mod 10)"

definition two_digits :: "nat \<Rightarrow> string" where
  "two_digits n = [digit_char (n div 10), digit_char (n mod 10)]"

definition strftime :: "clock \<Rightarrow> string" where
  "strftime t = two_digits (hour t) @ '':'' @ two_digits (minute t)"

text \<open>
  The times of a day, and the texts that \<^verbatim>\<open>strftime\<close> prints for them: a text is
  canonical when it is what the program prints for the time that it parses to.
\<close>

definition valid_clock :: "clock \<Rightarrow> bool" where
  "valid_clock c = (hour c < 24 \<and> minute c < 60)"

definition canonical_time :: "string \<Rightarrow> bool" where
  "canonical_time t = (case strptime t of Inl err \<Rightarrow> False | Inr c \<Rightarrow> strftime c = t)"

subsection \<open>The entry builder: \<^verbatim>\<open>add_entry\<close>\<close>

text \<open>
  The parsed command line. \<open>arg_description\<close> and \<open>arg_context\<close> are the source's
  \<^verbatim>\<open>args.description\<close> and \<^verbatim>\<open>args.context\<close>; an option that was not given is
  \<open>None\<close>, as in the source. A command line without a subcommand has no mode.
\<close>

datatype mode = Read | Write | NoMode

record args =
  mode :: mode
  arg_description :: string
  stop :: bool
  time :: "string option"
  arg_context :: "string option"
  minor :: bool
  verbose :: bool

text \<open>
  The statement \<^verbatim>\<open>entries.sort(key=lambda e: e.start_time)\<close>. Python's sort is
  stable and compares the keys as strings, character by character; \<open>sort_key\<close> is the
  stable insertion sort of the library, on the lexicographic order of strings.
\<close>

definition sort_entries :: "CsvEntry list \<Rightarrow> CsvEntry list" where
  "sort_entries entries = sort_key start_time entries"

text \<open>
  \<^verbatim>\<open>add_entry\<close> changes the list in place; the model returns the new list. The time
  given with \<^verbatim>\<open>--time\<close> is parsed and printed again, the time of the clock is printed.
\<close>

definition add_entry :: "CsvEntry list \<Rightarrow> args \<Rightarrow> clock \<Rightarrow> error + CsvEntry list" where
  "add_entry entries a now =
     (case (case time a of Some t \<Rightarrow> strptime t | None \<Rightarrow> Inr now) of
        Inl err \<Rightarrow> Inl err
      | Inr timestamp \<Rightarrow>
          let timestr = strftime timestamp;
              ctx = (case arg_context a of Some c \<Rightarrow> c | None \<Rightarrow> arg_description a);
              appended =
                (if \<not> stop a
                 then entries @ [\<lparr>description = arg_description a, start_time = timestr,
                                  context_label = ctx, is_finish = False, is_minor = minor a\<rparr>]
                 else entries @ [\<lparr>description = '''', start_time = timestr,
                                  context_label = ctx, is_finish = True, is_minor = minor a\<rparr>])
          in Inr (sort_entries appended))"

subsection \<open>The summary: \<^verbatim>\<open>print_summary\<close>\<close>

text \<open>A list comprehension whose element expression can raise: the first failure ends it.\<close>

fun comprehension :: "('a \<Rightarrow> error + 'b) \<Rightarrow> 'a list \<Rightarrow> error + 'b list" where
  "comprehension f [] = Inr []"
| "comprehension f (x # xs) =
     (case f x of
        Inl err \<Rightarrow> Inl err
      | Inr y \<Rightarrow> (case comprehension f xs of Inl err \<Rightarrow> Inl err | Inr ys \<Rightarrow> Inr (y # ys)))"

definition time_to_minutes :: "string \<Rightarrow> error + int" where
  "time_to_minutes t =
     (case strptime t of
        Inl err \<Rightarrow> Inl err
      | Inr parsed \<Rightarrow> Inr (int (minute parsed) + 60 * int (hour parsed)))"

text \<open>
  \<open>time_minutes\<close> is the list of the start times in minutes with the minutes of the clock
  appended; \<open>durations_of\<close> is the list of the differences of neighbours.
\<close>

definition time_minutes :: "CsvEntry list \<Rightarrow> clock \<Rightarrow> error + int list" where
  "time_minutes entries now =
     (case comprehension (\<lambda>e. time_to_minutes (start_time e)) entries of
        Inl err \<Rightarrow> Inl err
      | Inr ts \<Rightarrow> Inr (ts @ [int (minute now) + 60 * int (hour now)]))"

definition durations_of :: "int list \<Rightarrow> int list" where
  "durations_of tm = map (\<lambda>(start, finish). finish - start) (zip (butlast tm) (tl tm))"

definition durations :: "CsvEntry list \<Rightarrow> clock \<Rightarrow> error + int list" where
  "durations entries now =
     (case time_minutes entries now of Inl err \<Rightarrow> Inl err | Inr tm \<Rightarrow> Inr (durations_of tm))"

definition total_time :: "int list \<Rightarrow> CsvEntry list \<Rightarrow> int" where
  "total_time ds entries =
     sum_list (map (\<lambda>(d, e). if \<not> is_finish e then d else 0) (zip ds entries))"

definition major_time :: "int list \<Rightarrow> CsvEntry list \<Rightarrow> int" where
  "major_time ds entries =
     sum_list (map (\<lambda>(d, e). if \<not> is_finish e \<and> \<not> is_minor e then d else 0) (zip ds entries))"

text \<open>
  Python's floats are modelled by the rational numbers: the model computes the quotient and
  the products that the source writes, without the rounding of the machine. The division
  raises ZeroDivisionError on a zero divisor, as Python's does.
\<close>

definition stretch_factor :: "int \<Rightarrow> int \<Rightarrow> error + rat" where
  "stretch_factor total_minutes major_minutes =
     (if major_minutes = 0 then Inl ZeroDivisionError
      else Inr (of_int total_minutes / of_int major_minutes))"

record MajorEntry =
  major_description :: string
  original_minutes :: int
  minutes :: rat
  hours :: rat
  major_context :: string

definition major_entries :: "CsvEntry list \<Rightarrow> int list \<Rightarrow> rat \<Rightarrow> MajorEntry list" where
  "major_entries entries ds sf =
     map (\<lambda>(e, d). \<lparr>major_description = description e, original_minutes = d,
                    minutes = of_int d * sf, hours = of_int d * sf / 60,
                    major_context = context_label e\<rparr>)
       (filter (\<lambda>(e, d). \<not> is_minor e \<and> \<not> is_finish e) (zip entries ds))"

text \<open>
  The source collects the contexts in a Python set and builds one record for each, in the
  order of the set, which Python leaves open; the records are a set here, and so are the
  tasks of a record.
\<close>

record ContextEntry =
  ce_context :: string
  ce_original_minutes :: int
  ce_minutes :: rat
  ce_hours :: rat
  tasks :: "string set"

definition contextEntries :: "MajorEntry list \<Rightarrow> ContextEntry set" where
  "contextEntries mes =
     (\<lambda>c. \<lparr>ce_context = c,
            ce_original_minutes = sum_list (map original_minutes (filter (\<lambda>e. major_context e = c) mes)),
            ce_minutes = sum_list (map minutes (filter (\<lambda>e. major_context e = c) mes)),
            ce_hours = sum_list (map hours (filter (\<lambda>e. major_context e = c) mes)),
            tasks = set (map major_description (filter (\<lambda>e. major_context e = c) mes))\<rparr>)
       ` set (map major_context mes)"

text \<open>What \<^verbatim>\<open>print_summary\<close> prints: the two tables and the total of the hours.\<close>

record summary =
  major_table :: "MajorEntry list"
  context_table :: "ContextEntry set"
  total_hours :: rat

definition print_summary :: "CsvEntry list \<Rightarrow> clock \<Rightarrow> error + summary" where
  "print_summary entries now =
     (case durations entries now of
        Inl err \<Rightarrow> Inl err
      | Inr ds \<Rightarrow>
          (case stretch_factor (total_time ds entries) (major_time ds entries) of
             Inl err \<Rightarrow> Inl err
           | Inr sf \<Rightarrow>
               let mes = major_entries entries ds sf
               in Inr \<lparr>major_table = mes, context_table = contextEntries mes,
                       total_hours = sum_list (map hours mes)\<rparr>))"

subsection \<open>The day's file: \<^verbatim>\<open>read_entries\<close> and \<^verbatim>\<open>write_entries\<close>\<close>

text \<open>
  The file of the day is read and written through Python's \<^verbatim>\<open>csv\<close> module. The model
  keeps the file as the rows that the module reads and writes; the quoting of the fields
  inside the text of the file is the module's business and is not modelled. A row is an
  empty line, or the five fields of an entry and the fields that follow them, if any. A
  row of one to four fields has no place in this type: the reader fills the missing
  fields of such a row with \<^verbatim>\<open>None\<close>, and the entry then holds a value outside the
  field types that the dataclass declares. A file that does not exist is \<open>None\<close>. The
  backup directory holds copies of the file, each under the time of day of the copy.
\<close>

datatype csv_row = Blank | Fields string string string string string "string list"

record storage =
  day_file :: "csv_row list option"
  backups :: "(string \<times> csv_row list) list"

text \<open>
  What the files do to one run: the file operation that fails, if one fails, and the time
  of day that names the backup copy (\<^verbatim>\<open>datetime.now().strftime("%H%M%S")\<close>).
  \<open>MkdirFails\<close> is a run in which a directory is missing and cannot be made, \<open>CopyFails\<close>
  one in which the file cannot be copied, \<open>OpenFails\<close> one in which the file cannot be
  opened for writing, and \<open>WriteFails n\<close> one in which the writer fails after it has
  written \<open>n\<close> rows. Whether the directories exist is not part of the storage.
\<close>

datatype fault = MkdirFails | CopyFails | OpenFails | WriteFails nat

record files =
  fault :: "fault option"
  backup_time :: string

text \<open>The names of the fields, \<^verbatim>\<open>CsvFields\<close> of the source, as the row of the header.\<close>

definition CsvFields :: csv_row where
  "CsvFields = Fields ''description'' ''start_time'' ''context'' ''is_finish'' ''is_minor'' []"

text \<open>\<^verbatim>\<open>str(True)\<close> and \<^verbatim>\<open>str(False)\<close>: the writer turns a field that is not text into text.\<close>

definition str_bool :: "bool \<Rightarrow> string" where
  "str_bool b = (if b then ''True'' else ''False'')"

text \<open>
  The \<^verbatim>\<open>DictReader\<close> skips the empty rows. \<^verbatim>\<open>CsvEntry(**d)\<close> for a row \<open>d\<close> of the
  reader: five fields give an entry, whose two flags \<^verbatim>\<open>__post_init__\<close> compares with
  \<^verbatim>\<open>str(True)\<close>; further fields are collected under the key \<^verbatim>\<open>None\<close>, which the
  constructor refuses with a TypeError.
\<close>

fun non_blank ::
  "csv_row list \<Rightarrow> (string \<times> string \<times> string \<times> string \<times> string \<times> string list) list" where
  "non_blank [] = []"
| "non_blank (Blank # rows) = non_blank rows"
| "non_blank (Fields d s c f m rest # rows) = (d, s, c, f, m, rest) # non_blank rows"

fun row_entry ::
  "string \<times> string \<times> string \<times> string \<times> string \<times> string list \<Rightarrow> error + CsvEntry" where
  "row_entry (d, s, c, f, m, []) =
     Inr \<lparr>description = d, start_time = s, context_label = c,
          is_finish = (f = str_bool True), is_minor = (m = str_bool True)\<rparr>"
| "row_entry (d, s, c, f, m, x # xs) = Inl TypeError"

text \<open>\<^verbatim>\<open>list(reader)[1:]\<close> drops the first row that is not empty, the header.\<close>

definition read_entries :: "storage \<Rightarrow> error + CsvEntry list" where
  "read_entries st =
     (case day_file st of
        None \<Rightarrow> Inr []
      | Some rows \<Rightarrow> comprehension row_entry (drop 1 (non_blank rows)))"

definition entry_row :: "CsvEntry \<Rightarrow> csv_row" where
  "entry_row e =
     Fields (description e) (start_time e) (context_label e)
       (str_bool (is_finish e)) (str_bool (is_minor e)) []"

text \<open>
  \<^verbatim>\<open>write_entries\<close> makes the directories, copies the file of the day, if there is
  one, into the backup directory (a copy of the same time of day is replaced), opens the
  file for writing, which empties it, and writes the header and one row for each entry.
  The result is the storage that it leaves and the exception that ended it, if one did:
  a failure before the file is opened leaves the file as it was, a failure of the writer
  leaves the rows written so far.
\<close>

definition write_entries :: "CsvEntry list \<Rightarrow> storage \<Rightarrow> files \<Rightarrow> storage \<times> error option" where
  "write_entries entries st fs =
     (if fault fs = Some MkdirFails then (st, Some OSError)
      else if fault fs = Some CopyFails \<and> day_file st \<noteq> None then (st, Some OSError)
      else
        let saved =
              (case day_file st of
                 None \<Rightarrow> st
               | Some old \<Rightarrow>
                   st\<lparr>backups := filter (\<lambda>(t, copy). t \<noteq> backup_time fs) (backups st)
                                   @ [(backup_time fs, old)]\<rparr>);
            rows = CsvFields # map entry_row entries
        in (case fault fs of
              Some OpenFails \<Rightarrow> (saved, Some OSError)
            | Some (WriteFails n) \<Rightarrow> (saved\<lparr>day_file := Some (take n rows)\<rparr>, Some OSError)
            | _ \<Rightarrow> (saved\<lparr>day_file := Some rows\<rparr>, None)))"

subsection \<open>The program\<close>

text \<open>
  What the program prints, in order: the tables are kept as the values that the table
  formatter is given, the error line as the exception printed. The lines that
  \<^verbatim>\<open>--verbose\<close> adds are left out.
\<close>

datatype printout =
  NewEntries "CsvEntry list"
| EntriesTable "CsvEntry list"
| SummaryTables summary
| ErrorLine error
| Traceback error

definition print_entries :: "CsvEntry list \<Rightarrow> clock \<Rightarrow> printout list \<times> error option" where
  "print_entries entries now =
     (case print_summary entries now of
        Inl err \<Rightarrow> ([EntriesTable entries], Some err)
      | Inr s \<Rightarrow> ([EntriesTable entries, SummaryTables s], None))"

text \<open>
  The body of the \<^verbatim>\<open>try\<close> statement: what it printed, the storage it left, and the
  exception that ended it, if one did.
\<close>

definition try_body ::
  "args \<Rightarrow> storage \<Rightarrow> files \<Rightarrow> clock \<Rightarrow> printout list \<times> storage \<times> error option" where
  "try_body a st fs now =
     (case read_entries st of
        Inl err \<Rightarrow> ([], st, Some err)
      | Inr loaded \<Rightarrow>
          let entries = sort_entries loaded in
          (case mode a of
             Write \<Rightarrow>
               (case add_entry entries a now of
                  Inl err \<Rightarrow> ([], st, Some err)
                | Inr entries' \<Rightarrow>
                    (let (st', r) = write_entries entries' st fs
                     in ([NewEntries entries'], st', r)))
           | Read \<Rightarrow> (let (out, r) = print_entries entries now in (out, st, r))
           | NoMode \<Rightarrow> ([], st, None)))"

text \<open>
  The program: the \<^verbatim>\<open>try\<close> statement with its handler, which prints the exception and
  the traceback. Nothing follows the handler, so the interpreter ends with status 0
  whether the handler ran or not.
\<close>

record outcome =
  printed :: "printout list"
  storage_after :: storage
  exit_status :: nat

definition main :: "args \<Rightarrow> storage \<Rightarrow> files \<Rightarrow> clock \<Rightarrow> outcome" where
  "main a st fs now =
     (case try_body a st fs now of
        (out, st', None) \<Rightarrow> \<lparr>printed = out, storage_after = st', exit_status = 0\<rparr>
      | (out, st', Some err) \<Rightarrow>
          \<lparr>printed = out @ [ErrorLine err, Traceback err], storage_after = st', exit_status = 0\<rparr>)"

subsection \<open>Example logs\<close>

text \<open>The log of the specification's scenario A, read at 10:00.\<close>

definition scenario_A :: "CsvEntry list" where
  "scenario_A =
     [\<lparr>description = ''Write code'', start_time = ''09:00'', context_label = ''Project'',
       is_finish = False, is_minor = False\<rparr>,
      \<lparr>description = ''Email'', start_time = ''09:30'', context_label = ''Project'',
       is_finish = False, is_minor = True\<rparr>,
      \<lparr>description = ''Write code'', start_time = ''09:45'', context_label = ''Project'',
       is_finish = False, is_minor = False\<rparr>]"

definition ten_o_clock :: clock where
  "ten_o_clock = \<lparr>hour = 10, minute = 0\<rparr>"

text \<open>A day with a minor task and the stop entry only.\<close>

definition minor_only_log :: "CsvEntry list" where
  "minor_only_log =
     [\<lparr>description = ''Email'', start_time = ''09:30'', context_label = ''Mail'',
       is_finish = False, is_minor = True\<rparr>,
      \<lparr>description = '''', start_time = ''09:45'', context_label = ''Mail'',
       is_finish = True, is_minor = False\<rparr>]"

text \<open>A list that is not in the order of its start times.\<close>

definition unsorted_log :: "CsvEntry list" where
  "unsorted_log =
     [\<lparr>description = ''review'', start_time = ''10:00'', context_label = ''review'',
       is_finish = False, is_minor = False\<rparr>,
      \<lparr>description = ''mail'', start_time = ''09:00'', context_label = ''mail'',
       is_finish = False, is_minor = False\<rparr>]"

text \<open>
  A sorted log whose last entry was written with \<^verbatim>\<open>--time 23:00\<close> and that is read
  at 10:00, before that time.
\<close>

definition late_entry_log :: "CsvEntry list" where
  "late_entry_log =
     [\<lparr>description = ''code'', start_time = ''09:00'', context_label = ''code'',
       is_finish = False, is_minor = False\<rparr>,
      \<lparr>description = ''call'', start_time = ''23:00'', context_label = ''call'',
       is_finish = False, is_minor = True\<rparr>]"

text \<open>A task followed by the stop entry.\<close>

definition stopped_log :: "CsvEntry list" where
  "stopped_log =
     [\<lparr>description = ''Write code'', start_time = ''09:00'', context_label = ''Project'',
       is_finish = False, is_minor = False\<rparr>,
      \<lparr>description = '''', start_time = ''09:30'', context_label = ''Project'',
       is_finish = True, is_minor = False\<rparr>]"

text \<open>
  Command lines: \<^verbatim>\<open>write lunch --stop --time 9:40\<close>,
  \<^verbatim>\<open>write Email --context Project --minor\<close>, \<^verbatim>\<open>write task --time noon\<close> and
  \<^verbatim>\<open>read\<close>.
\<close>

definition stop_request :: args where
  "stop_request =
     \<lparr>mode = Write, arg_description = ''lunch'', stop = True, time = Some ''9:40'',
      arg_context = None, minor = False, verbose = False\<rparr>"

definition task_request :: args where
  "task_request =
     \<lparr>mode = Write, arg_description = ''Email'', stop = False, time = None,
      arg_context = Some ''Project'', minor = True, verbose = False\<rparr>"

definition bad_time_request :: args where
  "bad_time_request =
     \<lparr>mode = Write, arg_description = ''task'', stop = False, time = Some ''noon'',
      arg_context = None, minor = False, verbose = False\<rparr>"

definition read_request :: args where
  "read_request =
     \<lparr>mode = Read, arg_description = '''', stop = False, time = None,
      arg_context = None, minor = False, verbose = False\<rparr>"

text \<open>
  Storages: no file of the day yet, a file with a row of six fields, and a file whose two
  entries are not in the order of their start times. Files: all operations succeed; the
  file cannot be opened for writing; the writer fails after the header.
\<close>

definition no_file :: storage where
  "no_file = \<lparr>day_file = None, backups = []\<rparr>"

definition long_row_file :: storage where
  "long_row_file =
     \<lparr>day_file = Some [CsvFields, Fields ''a'' ''09:00'' ''a'' ''False'' ''False'' [''extra'']],
      backups = []\<rparr>"

definition unsorted_file :: storage where
  "unsorted_file =
     \<lparr>day_file = Some [CsvFields,
        Fields ''review'' ''10:00'' ''review'' ''False'' ''False'' [],
        Fields ''mail'' ''09:00'' ''mail'' ''False'' ''False'' []],
      backups = []\<rparr>"

definition sound_files :: files where
  "sound_files = \<lparr>fault = None, backup_time = ''100000''\<rparr>"

definition read_only_files :: files where
  "read_only_files = \<lparr>fault = Some OpenFails, backup_time = ''100000''\<rparr>"

definition full_disk_files :: files where
  "full_disk_files = \<lparr>fault = Some (WriteFails 1), backup_time = ''100000''\<rparr>"

section \<open>Properties\<close>

subsection \<open>Auxiliary facts\<close>

lemmas strptime_defs =
  strptime_def matches_HM_def re_H_def re_M_def alt_def seq_def one_of_def digit_def
  int_of_digits_def digit_value_def

lemmas strftime_defs = strftime_def two_digits_def digit_char_def

lemmas durations_defs =
  durations_def time_minutes_def time_to_minutes_def durations_of_def strptime_defs

lemma comprehension_Inr_iff:
  "comprehension f xs = Inr ys \<longleftrightarrow>
     length ys = length xs \<and> (\<forall>i<length xs. f (xs ! i) = Inr (ys ! i))"
proof (induction xs arbitrary: ys)
  case Nil
  then show ?case by auto
next
  case (Cons x xs)
  show ?case
  proof (cases ys)
    case Nil
    then show ?thesis by (auto split: sum.splits)
  next
    case (Cons y ys')
    then show ?thesis
      using Cons.IH [of ys']
      by (auto simp: nth_Cons less_Suc_eq_0_disj split: sum.splits nat.splits)
  qed
qed

lemma length_durations_of: "length (durations_of tm) = length tm - 1"
  by (simp add: durations_of_def)

lemma nth_durations_of:
  "Suc i < length tm \<Longrightarrow> durations_of tm ! i = tm ! Suc i - tm ! i"
  by (simp add: durations_of_def nth_butlast nth_tl)

lemma durations_scenario_A: "durations scenario_A ten_o_clock = Inr [30, 15, 15]"
  by (simp add: scenario_A_def ten_o_clock_def durations_defs)

lemma durations_unsorted_log:
  "durations unsorted_log \<lparr>hour = 11, minute = 0\<rparr> = Inr [- 60, 120]"
  by (simp add: unsorted_log_def durations_defs)

lemma sum_minutes_major_entries:
  "sum_list (map minutes (major_entries entries ds sf)) = of_int (major_time ds entries) * sf"
proof (induction entries arbitrary: ds)
  case Nil
  then show ?case by (simp add: major_entries_def major_time_def)
next
  case (Cons e es)
  show ?case
  proof (cases ds)
    case Nil
    then show ?thesis by (simp add: major_entries_def major_time_def)
  next
    case (Cons d ds')
    with Cons.IH [of ds'] show ?thesis
      by (simp add: major_entries_def major_time_def algebra_simps)
  qed
qed

lemma sum_hours_major_entries:
  "sum_list (map hours (major_entries entries ds sf)) = of_int (major_time ds entries) * sf / 60"
proof (induction entries arbitrary: ds)
  case Nil
  then show ?case by (simp add: major_entries_def major_time_def)
next
  case (Cons e es)
  show ?case
  proof (cases ds)
    case Nil
    then show ?thesis by (simp add: major_entries_def major_time_def)
  next
    case (Cons d ds')
    with Cons.IH [of ds'] show ?thesis
      by (simp add: major_entries_def major_time_def algebra_simps add_divide_distrib)
  qed
qed

lemma major_time_no_major:
  "\<forall>e\<in>set entries. is_finish e \<or> is_minor e \<Longrightarrow> major_time ds entries = 0"
proof (induction entries arbitrary: ds)
  case Nil
  then show ?case by (simp add: major_time_def)
next
  case (Cons e es)
  then show ?case by (cases ds) (auto simp: major_time_def)
qed

lemma total_time_minus_major_time:
  "total_time ds entries - major_time ds entries =
     sum_list (map (\<lambda>(d, e). if is_minor e \<and> \<not> is_finish e then d else 0) (zip ds entries))"
proof (induction entries arbitrary: ds)
  case Nil
  then show ?case by (simp add: total_time_def major_time_def)
next
  case (Cons e es)
  show ?case
  proof (cases ds)
    case Nil
    then show ?thesis by (simp add: total_time_def major_time_def)
  next
    case (Cons d ds')
    with Cons.IH [of ds'] show ?thesis
      by (simp add: total_time_def major_time_def)
  qed
qed

lemma major_time_le_total_time:
  assumes "\<forall>(d, e)\<in>set (zip ds entries). is_minor e \<and> \<not> is_finish e \<longrightarrow> 0 \<le> d"
  shows "major_time ds entries \<le> total_time ds entries"
proof -
  have "0 \<le> sum_list (map (\<lambda>(d, e). if is_minor e \<and> \<not> is_finish e then d else 0)
                 (zip ds entries))"
    using assms by (intro sum_list_nonneg) auto
  then show ?thesis
    using total_time_minus_major_time [of ds entries] by simp
qed

lemma total_time_no_minor:
  "\<forall>e\<in>set entries. is_minor e \<longrightarrow> is_finish e \<Longrightarrow>
     total_time ds entries = major_time ds entries"
proof (induction entries arbitrary: ds)
  case Nil
  then show ?case by (simp add: total_time_def major_time_def)
next
  case (Cons e es)
  show ?case
  proof (cases ds)
    case Nil
    then show ?thesis by (simp add: total_time_def major_time_def)
  next
    case (Cons d ds')
    with Cons.IH [of ds'] Cons.prems show ?thesis
      by (auto simp: total_time_def major_time_def)
  qed
qed

lemma finish_durations_irrelevant:
  assumes "length ds = length ds'" and "length ds' = length entries"
    and "\<forall>i<length entries. \<not> is_finish (entries ! i) \<longrightarrow> ds ! i = ds' ! i"
  shows "total_time ds entries = total_time ds' entries
       \<and> major_time ds entries = major_time ds' entries
       \<and> major_entries entries ds sf = major_entries entries ds' sf"
  using assms
proof (induction ds ds' entries rule: list_induct3)
  case Nil
  then show ?case by (simp add: total_time_def major_time_def major_entries_def)
next
  case (Cons d ds d' ds' e es)
  from Cons.prems have "\<forall>i<length es. \<not> is_finish (es ! i) \<longrightarrow> ds ! i = ds' ! i"
    by fastforce
  with Cons.IH have ih: "total_time ds es = total_time ds' es"
    "major_time ds es = major_time ds' es"
    "major_entries es ds sf = major_entries es ds' sf"
    by simp_all
  from Cons.prems have hd: "\<not> is_finish e \<longrightarrow> d = d'"
    by fastforce
  from ih hd show ?case
    by (auto simp: total_time_def major_time_def major_entries_def)
qed

lemma drop_finish_entries:
  "total_time (map snd (filter (\<lambda>(e, d). \<not> is_finish e) (zip entries ds)))
              (map fst (filter (\<lambda>(e, d). \<not> is_finish e) (zip entries ds)))
     = total_time ds entries
   \<and> major_time (map snd (filter (\<lambda>(e, d). \<not> is_finish e) (zip entries ds)))
                (map fst (filter (\<lambda>(e, d). \<not> is_finish e) (zip entries ds)))
     = major_time ds entries
   \<and> major_entries (map fst (filter (\<lambda>(e, d). \<not> is_finish e) (zip entries ds)))
                   (map snd (filter (\<lambda>(e, d). \<not> is_finish e) (zip entries ds))) sf
     = major_entries entries ds sf"
proof (induction entries arbitrary: ds)
  case Nil
  then show ?case by (simp add: total_time_def major_time_def major_entries_def)
next
  case (Cons e es)
  show ?case
  proof (cases ds)
    case Nil
    then show ?thesis by (simp add: total_time_def major_time_def major_entries_def)
  next
    case (Cons d ds')
    with Cons.IH [of ds'] show ?thesis
      by (simp add: total_time_def major_time_def major_entries_def)
  qed
qed

lemma add_entry_appends_sorted:
  "add_entry entries a now = Inr entries' \<Longrightarrow> \<exists>e. entries' = sort_entries (entries @ [e])"
  by (auto simp: add_entry_def Let_def split: sum.splits option.splits if_splits)

lemma row_entry_entry_row:
  "row_entry (description e, start_time e, context_label e,
      str_bool (is_finish e), str_bool (is_minor e), []) = Inr e"
  by (cases e) (simp add: str_bool_def)

lemma non_blank_entry_rows:
  "non_blank (map entry_row entries) =
     map (\<lambda>e. (description e, start_time e, context_label e,
                str_bool (is_finish e), str_bool (is_minor e), [])) entries"
  by (induction entries) (simp_all add: entry_row_def)

lemma comprehension_row_entry:
  "comprehension row_entry (non_blank (map entry_row entries)) = Inr entries"
  unfolding non_blank_entry_rows
  by (induction entries) (simp_all add: row_entry_entry_row del: row_entry.simps)

lemma read_written_rows:
  "read_entries (st\<lparr>day_file := Some (CsvFields # map entry_row entries)\<rparr>) = Inr entries"
  by (simp add: read_entries_def CsvFields_def comprehension_row_entry)

lemma write_entries_success:
  assumes "write_entries entries st fs = (st', None)"
  shows "day_file st' = Some (CsvFields # map entry_row entries)"
    and "read_entries st' = Inr entries"
proof -
  from assms obtain saved
    where "st' = saved\<lparr>day_file := Some (CsvFields # map entry_row entries)\<rparr>"
    by (auto simp: write_entries_def Let_def split: if_splits option.splits fault.splits)
  then show "day_file st' = Some (CsvFields # map entry_row entries)"
    and "read_entries st' = Inr entries"
    by (simp_all add: read_written_rows)
qed

text \<open>Times: what is printed parses back, and the order of the texts is the order of the times.\<close>

lemma of_char_digit_char: "n < 10 \<Longrightarrow> of_char (digit_char n) = (48 + n :: nat)"
proof -
  assume "n < 10"
  then have "n \<in> {0, 1, 2, 3, 4, 5, 6, 7, 8, 9}" by auto
  then show ?thesis by (elim insertE emptyE; simp add: digit_char_def)
qed

lemma digit_char_less_iff:
  assumes "a < 10" and "b < 10"
  shows "digit_char a < digit_char b \<longleftrightarrow> a < b"
  using of_char_digit_char [OF assms(1)] of_char_digit_char [OF assms(2)]
  by (simp add: less_char_def)

lemma digit_char_eq_iff:
  assumes "a < 10" and "b < 10"
  shows "digit_char a = digit_char b \<longleftrightarrow> a = b"
  using of_char_digit_char [OF assms(1)] of_char_digit_char [OF assms(2)]
  by (metis add_left_cancel)

lemma lex_less_decimal:
  "r < 10 \<Longrightarrow> r' < 10 \<Longrightarrow>
     (q < q' \<or> q = q' \<and> r < r') \<longleftrightarrow> 10 * q + r < 10 * q' + (r' :: nat)"
  by auto

lemma lex_eq_decimal:
  assumes "r < 10" and "r' < 10"
  shows "(q = q' \<and> r = r') \<longleftrightarrow> 10 * q + r = 10 * q' + (r' :: nat)"
proof
  assume "q = q' \<and> r = r'"
  then show "10 * q + r = 10 * q' + r'" by simp
next
  assume e: "10 * q + r = 10 * q' + r'"
  have "(10 * q + r) div 10 = q" "(10 * q' + r') div 10 = q'"
    using assms by simp_all
  with e have "q = q'" by simp
  with e show "q = q' \<and> r = r'" by simp
qed

lemma two_digits_less_iff:
  assumes "a < 100" and "b < 100"
  shows "two_digits a < two_digits b \<longleftrightarrow> a < b"
proof -
  have d: "a div 10 < 10" "b div 10 < 10" "a mod 10 < 10" "b mod 10 < 10"
    using assms by simp_all
  have "two_digits a < two_digits b \<longleftrightarrow>
          a div 10 < b div 10 \<or> a div 10 = b div 10 \<and> a mod 10 < b mod 10"
    by (simp add: two_digits_def digit_char_less_iff [OF d(1,2)] digit_char_less_iff [OF d(3,4)]
        digit_char_eq_iff [OF d(1,2)])
  also have "\<dots> \<longleftrightarrow> a < b"
    using lex_less_decimal [OF d(3,4), of "a div 10" "b div 10"] by (simp only: mult_div_mod_eq)
  finally show ?thesis .
qed

lemma two_digits_eq_iff:
  assumes "a < 100" and "b < 100"
  shows "two_digits a = two_digits b \<longleftrightarrow> a = b"
proof -
  have d: "a div 10 < 10" "b div 10 < 10" "a mod 10 < 10" "b mod 10 < 10"
    using assms by simp_all
  have "two_digits a = two_digits b \<longleftrightarrow> a div 10 = b div 10 \<and> a mod 10 = b mod 10"
    by (simp add: two_digits_def digit_char_eq_iff [OF d(1,2)] digit_char_eq_iff [OF d(3,4)])
  also have "\<dots> \<longleftrightarrow> a = b"
    using lex_eq_decimal [OF d(3,4), of "a div 10" "b div 10"] by (simp only: mult_div_mod_eq)
  finally show ?thesis .
qed

lemma strftime_le_iff:
  assumes "valid_clock c" and "valid_clock c'"
  shows "strftime c \<le> strftime c' \<longleftrightarrow>
           int (minute c) + 60 * int (hour c) \<le> int (minute c') + 60 * int (hour c')"
proof -
  have b: "hour c < 100" "hour c' < 100" "minute c < 100" "minute c' < 100"
    and m: "minute c < 60" "minute c' < 60"
    using assms by (simp_all add: valid_clock_def)
  have "strftime c \<le> strftime c' \<longleftrightarrow>
          two_digits (hour c) < two_digits (hour c')
          \<or> two_digits (hour c) = two_digits (hour c')
            \<and> (two_digits (minute c) < two_digits (minute c')
               \<or> two_digits (minute c) = two_digits (minute c'))"
    by (auto simp: strftime_def two_digits_def)
  also have "\<dots> \<longleftrightarrow> hour c < hour c' \<or> hour c = hour c' \<and> minute c \<le> minute c'"
    by (auto simp: two_digits_less_iff [OF b(1,2)] two_digits_less_iff [OF b(3,4)]
        two_digits_eq_iff [OF b(1,2)] two_digits_eq_iff [OF b(3,4)])
  also have "\<dots> \<longleftrightarrow>
      int (minute c) + 60 * int (hour c) \<le> int (minute c') + 60 * int (hour c')"
    using m by auto
  finally show ?thesis .
qed

lemma matches_HM_two_digits:
  assumes "h < 24"
  shows "matches_HM (two_digits h @ '':'' @ s) = map (\<lambda>(m, r3). (two_digits h, m, r3)) (re_M s)"
proof -
  have e: "[0..<24] = [0, 1, 2, 3, 4, 5, 6, 7, 8, 9, 10, 11, 12, 13, 14, 15, 16, 17, 18, 19, 20, 21, 22, 23 :: nat]"
    by code_simp
  from assms have "h \<in> set [0..<24]"
    by simp
  then have "h \<in> {0, 1, 2, 3, 4, 5, 6, 7, 8, 9, 10, 11, 12, 13, 14, 15, 16, 17, 18, 19, 20, 21, 22, 23}"
    unfolding e by simp
  then show ?thesis
    by (elim insertE emptyE;
        simp add: matches_HM_def re_H_def alt_def seq_def one_of_def digit_def
          two_digits_def digit_char_def)
qed

lemma re_M_two_digits:
  assumes "m < 60"
  shows "re_M (two_digits m) =
           [(two_digits m, []), ([digit_char (m div 10)], [digit_char (m mod 10)])]"
proof -
  have e: "[0..<60] = [0, 1, 2, 3, 4, 5, 6, 7, 8, 9, 10, 11, 12, 13, 14, 15, 16, 17, 18, 19, 20, 21, 22, 23, 24, 25, 26, 27, 28, 29, 30, 31, 32, 33, 34, 35, 36, 37, 38, 39, 40, 41, 42, 43, 44, 45, 46, 47, 48, 49, 50, 51, 52, 53, 54, 55, 56, 57, 58, 59 :: nat]"
    by code_simp
  from assms have "m \<in> set [0..<60]"
    by simp
  then have "m \<in> {0, 1, 2, 3, 4, 5, 6, 7, 8, 9, 10, 11, 12, 13, 14, 15, 16, 17, 18, 19, 20, 21, 22, 23, 24, 25, 26, 27, 28, 29, 30, 31, 32, 33, 34, 35, 36, 37, 38, 39, 40, 41, 42, 43, 44, 45, 46, 47, 48, 49, 50, 51, 52, 53, 54, 55, 56, 57, 58, 59}"
    unfolding e by simp
  then show ?thesis
    by (elim insertE emptyE;
        simp add: re_M_def alt_def seq_def one_of_def digit_def two_digits_def digit_char_def)
qed

lemma digit_value_digit_char: "n < 10 \<Longrightarrow> digit_value (digit_char n) = n"
  by (simp add: digit_value_def of_char_digit_char)

lemma int_of_digits_two_digits: "n < 100 \<Longrightarrow> int_of_digits (two_digits n) = n"
  by (simp add: int_of_digits_def two_digits_def digit_value_digit_char)

lemma strptime_strftime:
  assumes "valid_clock c"
  shows "strptime (strftime c) = Inr c"
proof -
  have b: "hour c < 24" "minute c < 60" "hour c < 100" "minute c < 100"
    using assms by (simp_all add: valid_clock_def)
  have "matches_HM (strftime c) =
          [(two_digits (hour c), two_digits (minute c), []),
           (two_digits (hour c), [digit_char (minute c div 10)], [digit_char (minute c mod 10)])]"
    unfolding strftime_def
    by (simp only: matches_HM_two_digits [OF b(1)] re_M_two_digits [OF b(2)]) simp
  then show ?thesis
    by (simp add: strptime_def int_of_digits_two_digits [OF b(3)] int_of_digits_two_digits [OF b(4)])
qed

lemma time_to_minutes_strftime:
  "valid_clock c \<Longrightarrow> time_to_minutes (strftime c) = Inr (int (minute c) + 60 * int (hour c))"
  by (simp add: time_to_minutes_def strptime_strftime)

lemma one_of_set: "(a, r) \<in> set (one_of cs s) \<longleftrightarrow> (\<exists>c\<in>set cs. a = [c] \<and> s = c # r)"
  by (auto simp: one_of_def split: list.splits)

lemma alt_set: "x \<in> set (alt p q s) \<longleftrightarrow> x \<in> set (p s) \<or> x \<in> set (q s)"
  by (simp add: alt_def)

lemma seq_set:
  "(a, r) \<in> set (seq p q s) \<longleftrightarrow>
     (\<exists>b c r'. (b, r') \<in> set (p s) \<and> (c, r) \<in> set (q r') \<and> a = b @ c)"
  unfolding seq_def by force

lemma digit_value_bound: "c \<in> set ''0123456789'' \<Longrightarrow> digit_value c < 10"
  by (auto simp: digit_value_def)

lemma re_H_range: "(h, r) \<in> set (re_H s) \<Longrightarrow> int_of_digits h < 24"
proof -
  assume "(h, r) \<in> set (re_H s)"
  then consider c where "h = [CHR ''2'', c]" "c \<in> set ''0123''"
    | c d where "h = [c, d]" "c \<in> set ''01''" "d \<in> set ''0123456789''"
    | c where "h = [c]" "c \<in> set ''0123456789''"
    unfolding re_H_def alt_set seq_set digit_def one_of_set by fastforce
  then show ?thesis
  proof cases
    case 1
    then show ?thesis by (auto simp: int_of_digits_def digit_value_def)
  next
    case 2
    from 2(3) have "digit_value d < 10" by (rule digit_value_bound)
    moreover from 2(2) have "digit_value c < 2" by (auto simp: digit_value_def)
    ultimately show ?thesis using 2(1) by (simp add: int_of_digits_def)
  next
    case 3
    from 3(2) have "digit_value c < 10" by (rule digit_value_bound)
    then show ?thesis using 3(1) by (simp add: int_of_digits_def)
  qed
qed

lemma re_M_range: "(m, r) \<in> set (re_M s) \<Longrightarrow> int_of_digits m < 60"
proof -
  assume "(m, r) \<in> set (re_M s)"
  then consider c d where "m = [c, d]" "c \<in> set ''012345''" "d \<in> set ''0123456789''"
    | c where "m = [c]" "c \<in> set ''0123456789''"
    unfolding re_M_def alt_set seq_set digit_def one_of_set by fastforce
  then show ?thesis
  proof cases
    case 1
    from 1(3) have "digit_value d < 10" by (rule digit_value_bound)
    moreover from 1(2) have "digit_value c < 6" by (auto simp: digit_value_def)
    ultimately show ?thesis using 1(1) by (simp add: int_of_digits_def)
  next
    case 2
    from 2(2) have "digit_value c < 10" by (rule digit_value_bound)
    then show ?thesis using 2(1) by (simp add: int_of_digits_def)
  qed
qed

lemma matches_HM_range:
  "(h, m, r) \<in> set (matches_HM s) \<Longrightarrow> int_of_digits h < 24 \<and> int_of_digits m < 60"
  by (auto simp: matches_HM_def dest: re_H_range re_M_range)

lemma strptime_valid:
  assumes "strptime t = Inr c"
  shows "valid_clock c"
proof -
  from assms obtain h m r rest where "matches_HM t = (h, m, r) # rest"
    and c: "c = \<lparr>hour = int_of_digits h, minute = int_of_digits m\<rparr>"
    by (auto simp: strptime_def split: list.splits if_splits)
  then have "(h, m, r) \<in> set (matches_HM t)" by simp
  from matches_HM_range [OF this] c show ?thesis
    by (simp add: valid_clock_def)
qed

lemma canonical_time_iff: "canonical_time t \<longleftrightarrow> (\<exists>c. valid_clock c \<and> t = strftime c)"
proof
  assume "canonical_time t"
  then obtain c where "strptime t = Inr c" "strftime c = t"
    by (auto simp: canonical_time_def split: sum.splits)
  with strptime_valid show "\<exists>c. valid_clock c \<and> t = strftime c" by blast
next
  assume "\<exists>c. valid_clock c \<and> t = strftime c"
  then show "canonical_time t"
    by (auto simp: canonical_time_def strptime_strftime)
qed

lemma chronological:
  assumes "\<forall>e\<in>set xs. canonical_time (start_time e)" and "sorted (map start_time xs)"
  shows "\<exists>ts. comprehension (\<lambda>e. time_to_minutes (start_time e)) xs = Inr ts \<and> sorted ts"
proof -
  have "\<forall>e\<in>set xs. \<exists>c. valid_clock c \<and> start_time e = strftime c"
    using assms(1) by (simp add: canonical_time_iff)
  then obtain clk where clk: "\<forall>e\<in>set xs. valid_clock (clk e) \<and> start_time e = strftime (clk e)"
    by metis
  let ?g = "\<lambda>e. int (minute (clk e)) + 60 * int (hour (clk e))"
  have t: "\<forall>e\<in>set xs. time_to_minutes (start_time e) = Inr (?g e)"
    using clk by (simp add: time_to_minutes_strftime)
  then have "comprehension (\<lambda>e. time_to_minutes (start_time e)) xs = Inr (map ?g xs)"
    by (simp add: comprehension_Inr_iff)
  moreover have "sorted (map ?g xs)"
  proof -
    have "sorted_wrt (\<lambda>x y. start_time x \<le> start_time y) xs"
      using assms(2) by (simp add: sorted_map)
    then have "sorted_wrt (\<lambda>x y. ?g x \<le> ?g y) xs"
    proof (rule sorted_wrt_mono_rel [rotated])
      fix x y
      assume "x \<in> set xs" "y \<in> set xs" "start_time x \<le> start_time y"
      with clk show "?g x \<le> ?g y"
        using strftime_le_iff [of "clk x" "clk y"] by simp
    qed
    then show ?thesis by (simp add: sorted_map)
  qed
  ultimately show ?thesis by blast
qed

lemma add_entry_canonical:
  assumes "add_entry entries a now = Inr entries'" and "valid_clock now"
  shows "\<exists>e. entries' = sort_entries (entries @ [e]) \<and> canonical_time (start_time e)"
proof -
  from assms(1) obtain c
    where c: "(case time a of Some t \<Rightarrow> strptime t | None \<Rightarrow> Inr now) = Inr c"
    by (auto simp: add_entry_def split: sum.splits)
  have "valid_clock c"
    using c assms(2) strptime_valid by (auto split: option.splits)
  then have "canonical_time (strftime c)"
    by (auto simp: canonical_time_iff)
  with assms(1) c show ?thesis
    by (auto simp: add_entry_def Let_def split: if_splits)
qed

subsection \<open>Redistribution\<close>

text \<open>
  Claim C1 (redistribution conservation). Whenever the durations of an entry list are
  derived and its major minutes are positive, the summary is produced, the adjusted
  minutes of its major records add up to the total minutes, and the total of the hours
  that it prints is the total minutes divided by 60.
\<close>

theorem redistribution_conservation:
  assumes "durations entries now = Inr ds" and "0 < major_time ds entries"
  shows "\<exists>s. print_summary entries now = Inr s
           \<and> sum_list (map minutes (major_table s)) = of_int (total_time ds entries)
           \<and> total_hours s = of_int (total_time ds entries) / 60"
  using assms
  by (simp add: print_summary_def stretch_factor_def Let_def
      sum_minutes_major_entries sum_hours_major_entries)

text \<open>Scenario A: the adjusted minutes 40 and 20 add up to the 60 minutes of the hour.\<close>

theorem redistribution_conservation_witness:
  "durations scenario_A ten_o_clock = Inr [30, 15, 15]
   \<and> 0 < major_time [30, 15, 15] scenario_A
   \<and> (\<exists>s. print_summary scenario_A ten_o_clock = Inr s
          \<and> sum_list (map minutes (major_table s)) = 60
          \<and> total_hours s = 1)"
proof -
  have m: "0 < major_time [30, 15, 15] scenario_A"
    by (simp add: major_time_def scenario_A_def)
  have t: "total_time [30, 15, 15] scenario_A = 60"
    by (simp add: total_time_def scenario_A_def)
  from redistribution_conservation [OF durations_scenario_A m] t durations_scenario_A m
  show ?thesis by simp
qed

text \<open>
  Claim C2 (zero-major error). Whenever the durations of an entry list are derived and
  its major minutes are 0, the summary fails with the exception of the division, which
  the specification calls NoMajorWorkError, and produces no tables; this is so in
  particular when every entry is a finish entry or a minor entry, and when there is no
  entry at all.
\<close>

theorem zero_major_error:
  assumes "durations entries now = Inr ds"
  shows "(major_time ds entries = 0 \<longrightarrow> print_summary entries now = Inl ZeroDivisionError)
       \<and> ((\<forall>e\<in>set entries. is_finish e \<or> is_minor e) \<longrightarrow>
            print_summary entries now = Inl ZeroDivisionError)"
  using assms major_time_no_major [of entries ds]
  by (auto simp: print_summary_def stretch_factor_def)

theorem zero_major_error_witness:
  "durations minor_only_log ten_o_clock = Inr [15, 15]
   \<and> major_time [15, 15] minor_only_log = 0
   \<and> list_all (\<lambda>e. is_finish e \<or> is_minor e) minor_only_log
   \<and> print_summary minor_only_log ten_o_clock = Inl ZeroDivisionError
   \<and> durations [] ten_o_clock = Inr []
   \<and> print_summary [] ten_o_clock = Inl ZeroDivisionError"
proof -
  have d: "durations minor_only_log ten_o_clock = Inr [15, 15]"
    by (simp add: minor_only_log_def ten_o_clock_def durations_defs)
  have m: "major_time [15, 15] minor_only_log = 0"
    by (simp add: major_time_def minor_only_log_def)
  have b: "\<forall>e\<in>set minor_only_log. is_finish e \<or> is_minor e"
    by (simp add: minor_only_log_def)
  have d0: "durations [] ten_o_clock = Inr []"
    by (simp add: durations_def time_minutes_def durations_of_def)
  from zero_major_error [OF d] zero_major_error [OF d0] d m b d0
  show ?thesis by (simp add: list_all_iff)
qed

text \<open>
  Claim C4, amended (stretch factor bound). Whenever the durations of an entry list are
  derived, its major minutes are positive and no minor entry that is not a finish entry
  has a negative duration, the stretch factor is the quotient of the total and the major
  minutes and is at least 1; it is exactly 1 when no entry that is not a finish entry
  is minor.
\<close>

theorem stretch_factor_bound:
  assumes "durations entries now = Inr ds"
    and "0 < major_time ds entries"
    and "\<forall>(d, e)\<in>set (zip ds entries). is_minor e \<and> \<not> is_finish e \<longrightarrow> 0 \<le> d"
  shows "\<exists>sf. stretch_factor (total_time ds entries) (major_time ds entries) = Inr sf
           \<and> sf = of_int (total_time ds entries) / of_int (major_time ds entries)
           \<and> 1 \<le> sf
           \<and> ((\<forall>e\<in>set entries. is_minor e \<longrightarrow> is_finish e) \<longrightarrow> sf = 1)"
proof -
  let ?sf = "(of_int (total_time ds entries) :: rat) / of_int (major_time ds entries)"
  have s: "stretch_factor (total_time ds entries) (major_time ds entries) = Inr ?sf"
    using assms(2) by (simp add: stretch_factor_def)
  have "major_time ds entries \<le> total_time ds entries"
    using assms(3) by (rule major_time_le_total_time)
  then have b: "1 \<le> ?sf"
    using assms(2) by (simp add: le_divide_eq)
  have "(\<forall>e\<in>set entries. is_minor e \<longrightarrow> is_finish e) \<longrightarrow> ?sf = 1"
    using assms(2) total_time_no_minor [of entries ds] by auto
  with s b show ?thesis by blast
qed

text \<open>Scenario A has the stretch factor 4/3; without its minor entry the factor is 1.\<close>

theorem stretch_factor_bound_witness:
  "durations scenario_A ten_o_clock = Inr [30, 15, 15]
   \<and> 0 < major_time [30, 15, 15] scenario_A
   \<and> list_all (\<lambda>(d, e). is_minor e \<and> \<not> is_finish e \<longrightarrow> 0 \<le> d)
         (zip [30, 15, 15 :: int] scenario_A)
   \<and> stretch_factor (total_time [30, 15, 15] scenario_A) (major_time [30, 15, 15] scenario_A)
       = Inr (4 / 3)
   \<and> (1 :: rat) \<le> 4 / 3
   \<and> durations stopped_log ten_o_clock = Inr [30, 30]
   \<and> list_all (\<lambda>e. is_minor e \<longrightarrow> is_finish e) stopped_log
   \<and> stretch_factor (total_time [30, 30] stopped_log) (major_time [30, 30] stopped_log) = Inr 1"
proof -
  have m: "0 < major_time [30, 15, 15] scenario_A"
    by (simp add: major_time_def scenario_A_def)
  have n: "\<forall>(d, e)\<in>set (zip [30, 15, 15 :: int] scenario_A). is_minor e \<and> \<not> is_finish e \<longrightarrow> 0 \<le> d"
    by (simp add: scenario_A_def)
  have v: "(of_int (total_time [30, 15, 15] scenario_A) :: rat)
             / of_int (major_time [30, 15, 15] scenario_A) = 4 / 3"
    by (simp add: total_time_def major_time_def scenario_A_def)
  have d': "durations stopped_log ten_o_clock = Inr [30, 30]"
    by (simp add: stopped_log_def ten_o_clock_def durations_defs)
  have m': "0 < major_time [30, 30] stopped_log"
    by (simp add: major_time_def stopped_log_def)
  have n': "\<forall>(d, e)\<in>set (zip [30, 30 :: int] stopped_log). is_minor e \<and> \<not> is_finish e \<longrightarrow> 0 \<le> d"
    by (simp add: stopped_log_def)
  have b': "\<forall>e\<in>set stopped_log. is_minor e \<longrightarrow> is_finish e"
    by (simp add: stopped_log_def)
  from stretch_factor_bound [OF durations_scenario_A m n] v
  have "stretch_factor (total_time [30, 15, 15] scenario_A) (major_time [30, 15, 15] scenario_A)
          = Inr (4 / 3)"
    by auto
  moreover from stretch_factor_bound [OF d' m' n'] b'
  have "stretch_factor (total_time [30, 30] stopped_log) (major_time [30, 30] stopped_log) = Inr 1"
    by auto
  ultimately show ?thesis
    using durations_scenario_A m n d' b' by (simp add: list_all_iff)
qed

text \<open>
  The claim as it was stated fails: the sorted log \<open>late_entry_log\<close>, read at 10:00, has
  840 major minutes, 60 total minutes and the stretch factor 1/14.
\<close>

theorem stretch_factor_below_one:
  "durations late_entry_log ten_o_clock = Inr [840, - 780]
   \<and> sorted (map start_time late_entry_log)
   \<and> 0 < major_time [840, - 780] late_entry_log
   \<and> stretch_factor (total_time [840, - 780] late_entry_log)
        (major_time [840, - 780] late_entry_log) = Inr (1 / 14)
   \<and> \<not> (1 \<le> (1 / 14 :: rat))"
  by (simp add: late_entry_log_def ten_o_clock_def durations_defs major_time_def
      total_time_def stretch_factor_def)

subsection \<open>Durations\<close>

text \<open>
  Claim C3 (duration derivation). For a list of n entries whose start times convert to
  the minutes \<open>ts\<close>, the durations are derived, there are exactly n of them, and the
  i-th is the difference of the boundaries i+1 and i, where the boundaries are \<open>ts\<close>
  followed by the minutes of the clock. Nothing is clamped: the list \<open>unsorted_log\<close>,
  which is not sorted, has the negative duration -60.
\<close>

theorem duration_derivation:
  assumes "length ts = length entries"
    and "\<forall>i<length entries. time_to_minutes (start_time (entries ! i)) = Inr (ts ! i)"
  shows "\<exists>ds. durations entries now = Inr ds \<and> length ds = length entries
           \<and> (\<forall>i<length entries.
                 ds ! i = (ts @ [int (minute now) + 60 * int (hour now)]) ! Suc i
                        - (ts @ [int (minute now) + 60 * int (hour now)]) ! i)
           \<and> durations unsorted_log \<lparr>hour = 11, minute = 0\<rparr> = Inr [- 60, 120]"
proof -
  let ?b = "ts @ [int (minute now) + 60 * int (hour now)]"
  have "comprehension (\<lambda>e. time_to_minutes (start_time e)) entries = Inr ts"
    using assms by (simp add: comprehension_Inr_iff)
  then have d: "durations entries now = Inr (durations_of ?b)"
    by (simp add: durations_def time_minutes_def)
  have l: "length (durations_of ?b) = length entries"
    using assms(1) by (simp add: length_durations_of)
  have n: "\<forall>i<length entries. durations_of ?b ! i = ?b ! Suc i - ?b ! i"
    using assms(1) by (simp add: nth_durations_of)
  from d l n durations_unsorted_log show ?thesis by blast
qed

text \<open>Scenario A: the boundaries 540, 570, 585 and 600 give the durations 30, 15 and 15.\<close>

theorem duration_derivation_witness:
  "length [540, 570, 585 :: int] = length scenario_A
   \<and> map (\<lambda>e. time_to_minutes (start_time e)) scenario_A = map Inr [540, 570, 585]
   \<and> (\<exists>ds. durations scenario_A ten_o_clock = Inr ds \<and> length ds = 3
          \<and> ds ! 0 = 30 \<and> ds ! 1 = 15 \<and> ds ! 2 = 15)"
proof -
  have l: "length [540, 570, 585 :: int] = length scenario_A"
    by (simp add: scenario_A_def)
  have c: "\<forall>i<length scenario_A.
             time_to_minutes (start_time (scenario_A ! i)) = Inr ([540, 570, 585] ! i)"
    by (simp add: scenario_A_def All_less_Suc time_to_minutes_def strptime_defs)
  from duration_derivation [OF l c, of ten_o_clock]
  obtain ds where ds: "durations scenario_A ten_o_clock = Inr ds" "length ds = length scenario_A"
    "\<forall>i<length scenario_A.
       ds ! i = ([540, 570, 585] @ [int (minute ten_o_clock) + 60 * int (hour ten_o_clock)]) ! Suc i
              - ([540, 570, 585] @ [int (minute ten_o_clock) + 60 * int (hour ten_o_clock)]) ! i"
    by blast
  from ds(2) have "length ds = 3"
    by (simp add: scenario_A_def)
  moreover from ds(3) have "ds ! 0 = 30 \<and> ds ! 1 = 15 \<and> ds ! 2 = 15"
    by (simp add: scenario_A_def All_less_Suc ten_o_clock_def numeral_2_eq_2)
  moreover have "map (\<lambda>e. time_to_minutes (start_time e)) scenario_A = map Inr [540, 570, 585]"
    by (simp add: scenario_A_def time_to_minutes_def strptime_defs)
  ultimately show ?thesis
    using l ds(1) by blast
qed

subsection \<open>The entry builder\<close>

text \<open>
  Claim C5 (stop semantics of the entry builder). Whenever \<open>add_entry\<close> returns, its
  result is the sorted list of the old entries and one appended entry; with
  \<^verbatim>\<open>--stop\<close> that entry has the empty description and is a finish entry, without it the
  entry has the description of the command line and is no finish entry; in both cases
  its minor flag is the one of the command line.
\<close>

theorem add_entry_stop_semantics:
  assumes "add_entry entries a now = Inr entries'"
  shows "\<exists>e. entries' = sort_entries (entries @ [e])
           \<and> (stop a \<longrightarrow> description e = '''' \<and> is_finish e)
           \<and> (\<not> stop a \<longrightarrow> description e = arg_description a \<and> \<not> is_finish e)
           \<and> is_minor e = minor a"
  using assms
  by (auto simp: add_entry_def Let_def split: sum.splits option.splits if_splits)

theorem add_entry_stop_semantics_witness:
  "add_entry scenario_A stop_request ten_o_clock =
     Inr (take 2 scenario_A
          @ [\<lparr>description = '''', start_time = ''09:40'', context_label = ''lunch'',
               is_finish = True, is_minor = False\<rparr>]
          @ drop 2 scenario_A)
   \<and> stop stop_request
   \<and> (\<exists>e. take 2 scenario_A
            @ [\<lparr>description = '''', start_time = ''09:40'', context_label = ''lunch'',
                 is_finish = True, is_minor = False\<rparr>]
            @ drop 2 scenario_A = sort_entries (scenario_A @ [e])
          \<and> description e = '''' \<and> is_finish e \<and> is_minor e = minor stop_request)
   \<and> add_entry scenario_A task_request ten_o_clock =
       Inr (scenario_A
            @ [\<lparr>description = ''Email'', start_time = ''10:00'', context_label = ''Project'',
                 is_finish = False, is_minor = True\<rparr>])
   \<and> \<not> stop task_request
   \<and> (\<exists>e. scenario_A
            @ [\<lparr>description = ''Email'', start_time = ''10:00'', context_label = ''Project'',
                 is_finish = False, is_minor = True\<rparr>] = sort_entries (scenario_A @ [e])
          \<and> description e = arg_description task_request \<and> \<not> is_finish e
          \<and> is_minor e = minor task_request)"
proof -
  have s: "add_entry scenario_A stop_request ten_o_clock =
     Inr (take 2 scenario_A
          @ [\<lparr>description = '''', start_time = ''09:40'', context_label = ''lunch'',
               is_finish = True, is_minor = False\<rparr>]
          @ drop 2 scenario_A)"
    by (simp add: add_entry_def stop_request_def scenario_A_def sort_entries_def
        strptime_defs strftime_defs Let_def)
  have t: "add_entry scenario_A task_request ten_o_clock =
       Inr (scenario_A
            @ [\<lparr>description = ''Email'', start_time = ''10:00'', context_label = ''Project'',
                 is_finish = False, is_minor = True\<rparr>])"
    by (simp add: add_entry_def task_request_def scenario_A_def ten_o_clock_def
        sort_entries_def strftime_defs Let_def)
  have f: "stop stop_request" "\<not> stop task_request"
    by (simp_all add: stop_request_def task_request_def)
  from add_entry_stop_semantics [OF s] add_entry_stop_semantics [OF t] s t f
  show ?thesis by simp
qed

text \<open>
  Claim C10 (context of a stop entry). Whenever \<open>add_entry\<close> returns for a command line
  with \<^verbatim>\<open>--stop\<close> and without \<^verbatim>\<open>--context\<close>, the appended finish entry has the empty
  description and, as its context, the description of the command line.
\<close>

theorem stop_entry_context_is_description:
  assumes "add_entry entries a now = Inr entries'" and "stop a" and "arg_context a = None"
  shows "\<exists>e. entries' = sort_entries (entries @ [e])
           \<and> is_finish e \<and> description e = '''' \<and> context_label e = arg_description a"
  using assms
  by (auto simp: add_entry_def Let_def split: sum.splits option.splits if_splits)

text \<open>The stop entry of \<^verbatim>\<open>write lunch --stop\<close> has the context \<^verbatim>\<open>lunch\<close>.\<close>

theorem stop_entry_context_is_description_witness:
  "add_entry [] stop_request ten_o_clock =
     Inr [\<lparr>description = '''', start_time = ''09:40'', context_label = ''lunch'',
           is_finish = True, is_minor = False\<rparr>]
   \<and> stop stop_request \<and> arg_context stop_request = None
   \<and> (\<exists>e. [\<lparr>description = '''', start_time = ''09:40'', context_label = ''lunch'',
              is_finish = True, is_minor = False\<rparr>] = sort_entries ([] @ [e])
          \<and> is_finish e \<and> description e = '''' \<and> context_label e = ''lunch'')"
proof -
  have s: "add_entry [] stop_request ten_o_clock =
     Inr [\<lparr>description = '''', start_time = ''09:40'', context_label = ''lunch'',
           is_finish = True, is_minor = False\<rparr>]"
    by (simp add: add_entry_def stop_request_def sort_entries_def strptime_defs strftime_defs
        Let_def)
  have f: "stop stop_request" "arg_context stop_request = None"
    "arg_description stop_request = ''lunch''"
    by (simp_all add: stop_request_def)
  from stop_entry_context_is_description [OF s f(1,2)] s f
  show ?thesis by simp
qed

text \<open>
  Claim C6 (sort invariant and stability). The sort statement, which the program runs
  after the load and in \<open>add_entry\<close>, yields the same entries in non-decreasing order of
  their start times and keeps the order of the entries with the same start time.
  Whenever \<open>add_entry\<close> returns, its result is in non-decreasing order of the start
  times, holds the old entries and one new entry, and among the entries with the same
  start time the old ones keep their order and the new one comes last. In the program,
  the table that a read prints and the summary that follows it are those of the loaded
  entries after the sort, and a write prints the result of \<open>add_entry\<close> on the loaded
  entries after the sort and, when no file operation fails, leaves it in the file. The
  order is the order of the texts of the start times, which is the sort key of the
  source; where the start times are canonical it is the order of the times in minutes as
  well, and a write at a valid time of the clock keeps the start times canonical.
\<close>

theorem sort_invariant_stable:
  "sorted (map start_time (sort_entries es))
   \<and> mset (sort_entries es) = mset es
   \<and> (\<forall>k. filter (\<lambda>x. start_time x = k) (sort_entries es) = filter (\<lambda>x. start_time x = k) es)
   \<and> ((\<forall>e\<in>set es. canonical_time (start_time e)) \<longrightarrow>
        (\<exists>ts. comprehension (\<lambda>e. time_to_minutes (start_time e)) (sort_entries es) = Inr ts
             \<and> sorted ts))
   \<and> (add_entry entries a now = Inr entries' \<longrightarrow>
        sorted (map start_time entries')
        \<and> (\<exists>e. mset entries' = mset entries + {#e#}
              \<and> (\<forall>k. filter (\<lambda>x. start_time x = k) entries'
                     = filter (\<lambda>x. start_time x = k) entries
                       @ (if start_time e = k then [e] else [])))
        \<and> (valid_clock now \<and> (\<forall>e\<in>set entries. canonical_time (start_time e)) \<longrightarrow>
             (\<exists>ts. comprehension (\<lambda>e. time_to_minutes (start_time e)) entries' = Inr ts
                  \<and> sorted ts)))
   \<and> (read_entries st = Inr loaded \<and> mode a = Read \<longrightarrow>
        (\<exists>rest. printed (main a st fs now) = EntriesTable (sort_entries loaded) # rest
               \<and> (\<forall>s. print_summary (sort_entries loaded) now = Inr s \<longrightarrow>
                      rest = [SummaryTables s])))
   \<and> (read_entries st = Inr loaded \<and> mode a = Write
        \<and> add_entry (sort_entries loaded) a now = Inr written \<longrightarrow>
        (\<exists>rest. printed (main a st fs now) = NewEntries written # rest)
        \<and> sorted (map start_time written)
        \<and> (fault fs = None \<longrightarrow> read_entries (storage_after (main a st fs now)) = Inr written)
        \<and> (valid_clock now \<and> (\<forall>e\<in>set loaded. canonical_time (start_time e)) \<longrightarrow>
             (\<forall>e\<in>set written. canonical_time (start_time e))
             \<and> (\<exists>ts. comprehension (\<lambda>e. time_to_minutes (start_time e)) written = Inr ts
                    \<and> sorted ts)))"
proof -
  have s: "\<And>xs. sorted (map start_time (sort_entries xs))"
    by (simp add: sort_entries_def)
  have m: "\<And>xs. mset (sort_entries xs) = mset xs"
    by (simp add: sort_entries_def)
  have f: "\<And>xs k. filter (\<lambda>x. start_time x = k) (sort_entries xs)
             = filter (\<lambda>x. start_time x = k) xs"
    by (simp add: sort_entries_def sort_key_stable)
  have c: "\<And>xs :: CsvEntry list. \<forall>e\<in>set xs. canonical_time (start_time e) \<Longrightarrow>
             \<exists>ts. comprehension (\<lambda>e. time_to_minutes (start_time e)) (sort_entries xs) = Inr ts
                \<and> sorted ts"
  proof -
    fix xs :: "CsvEntry list"
    assume "\<forall>e\<in>set xs. canonical_time (start_time e)"
    then have "\<forall>e\<in>set (sort_entries xs). canonical_time (start_time e)"
      by (simp add: sort_entries_def)
    then show "\<exists>ts. comprehension (\<lambda>e. time_to_minutes (start_time e)) (sort_entries xs) = Inr ts
                \<and> sorted ts"
      using s by (rule chronological)
  qed
  have b: "\<And>old new. add_entry old a now = Inr new \<Longrightarrow>
        sorted (map start_time new)
        \<and> (\<exists>e. mset new = mset old + {#e#}
              \<and> (\<forall>k. filter (\<lambda>x. start_time x = k) new
                     = filter (\<lambda>x. start_time x = k) old
                       @ (if start_time e = k then [e] else [])))
        \<and> (valid_clock now \<and> (\<forall>e\<in>set old. canonical_time (start_time e)) \<longrightarrow>
             (\<forall>e\<in>set new. canonical_time (start_time e))
             \<and> (\<exists>ts. comprehension (\<lambda>e. time_to_minutes (start_time e)) new = Inr ts
                    \<and> sorted ts))"
  proof -
    fix old new
    assume a: "add_entry old a now = Inr new"
    then obtain e where e: "new = sort_entries (old @ [e])"
      using add_entry_appends_sorted by blast
    have "mset new = mset old + {#e#}"
      by (simp add: e m)
    moreover have "\<forall>k. filter (\<lambda>x. start_time x = k) new
                     = filter (\<lambda>x. start_time x = k) old
                       @ (if start_time e = k then [e] else [])"
      by (simp add: e f)
    moreover have "valid_clock now \<and> (\<forall>e\<in>set old. canonical_time (start_time e)) \<longrightarrow>
             (\<forall>e\<in>set new. canonical_time (start_time e))
             \<and> (\<exists>ts. comprehension (\<lambda>e. time_to_minutes (start_time e)) new = Inr ts
                    \<and> sorted ts)"
    proof
      assume v: "valid_clock now \<and> (\<forall>e\<in>set old. canonical_time (start_time e))"
      with a obtain e' where e': "new = sort_entries (old @ [e'])"
        "canonical_time (start_time e')"
        using add_entry_canonical by blast
      with v have all: "\<forall>x\<in>set (old @ [e']). canonical_time (start_time x)"
        by simp
      then have "\<forall>x\<in>set new. canonical_time (start_time x)"
        by (simp add: e'(1) sort_entries_def)
      with c [OF all] e'(1)
      show "(\<forall>e\<in>set new. canonical_time (start_time e))
             \<and> (\<exists>ts. comprehension (\<lambda>e. time_to_minutes (start_time e)) new = Inr ts
                    \<and> sorted ts)"
        by simp
    qed
    ultimately show "sorted (map start_time new)
        \<and> (\<exists>e. mset new = mset old + {#e#}
              \<and> (\<forall>k. filter (\<lambda>x. start_time x = k) new
                     = filter (\<lambda>x. start_time x = k) old
                       @ (if start_time e = k then [e] else [])))
        \<and> (valid_clock now \<and> (\<forall>e\<in>set old. canonical_time (start_time e)) \<longrightarrow>
             (\<forall>e\<in>set new. canonical_time (start_time e))
             \<and> (\<exists>ts. comprehension (\<lambda>e. time_to_minutes (start_time e)) new = Inr ts
                    \<and> sorted ts))"
      using s e by blast
  qed
  have r: "read_entries st = Inr loaded \<and> mode a = Read \<longrightarrow>
        (\<exists>rest. printed (main a st fs now) = EntriesTable (sort_entries loaded) # rest
               \<and> (\<forall>s. print_summary (sort_entries loaded) now = Inr s \<longrightarrow>
                      rest = [SummaryTables s]))"
    by (auto simp: main_def try_body_def print_entries_def Let_def split: sum.splits)
  have w: "read_entries st = Inr loaded \<and> mode a = Write
        \<and> add_entry (sort_entries loaded) a now = Inr written \<longrightarrow>
        (\<exists>rest. printed (main a st fs now) = NewEntries written # rest)
        \<and> sorted (map start_time written)
        \<and> (fault fs = None \<longrightarrow> read_entries (storage_after (main a st fs now)) = Inr written)
        \<and> (valid_clock now \<and> (\<forall>e\<in>set loaded. canonical_time (start_time e)) \<longrightarrow>
             (\<forall>e\<in>set written. canonical_time (start_time e))
             \<and> (\<exists>ts. comprehension (\<lambda>e. time_to_minutes (start_time e)) written = Inr ts
                    \<and> sorted ts))"
  proof
    assume h: "read_entries st = Inr loaded \<and> mode a = Write
        \<and> add_entry (sort_entries loaded) a now = Inr written"
    have p: "\<exists>rest. printed (main a st fs now) = NewEntries written # rest"
      using h by (auto simp: main_def try_body_def Let_def split: prod.splits option.splits)
    have k: "fault fs = None \<longrightarrow> read_entries (storage_after (main a st fs now)) = Inr written"
    proof
      assume "fault fs = None"
      then obtain st' where st': "write_entries written st fs = (st', None)"
        by (simp add: write_entries_def Let_def)
      then have "storage_after (main a st fs now) = st'"
        using h by (simp add: main_def try_body_def Let_def)
      with write_entries_success(2) [OF st']
      show "read_entries (storage_after (main a st fs now)) = Inr written"
        by simp
    qed
    have "set (sort_entries loaded) = set loaded"
      by (simp add: sort_entries_def)
    with b [of "sort_entries loaded" written] h p k
    show "(\<exists>rest. printed (main a st fs now) = NewEntries written # rest)
        \<and> sorted (map start_time written)
        \<and> (fault fs = None \<longrightarrow> read_entries (storage_after (main a st fs now)) = Inr written)
        \<and> (valid_clock now \<and> (\<forall>e\<in>set loaded. canonical_time (start_time e)) \<longrightarrow>
             (\<forall>e\<in>set written. canonical_time (start_time e))
             \<and> (\<exists>ts. comprehension (\<lambda>e. time_to_minutes (start_time e)) written = Inr ts
                    \<and> sorted ts))"
      by simp
  qed
  have "add_entry entries a now = Inr entries' \<longrightarrow>
        sorted (map start_time entries')
        \<and> (\<exists>e. mset entries' = mset entries + {#e#}
              \<and> (\<forall>k. filter (\<lambda>x. start_time x = k) entries'
                     = filter (\<lambda>x. start_time x = k) entries
                       @ (if start_time e = k then [e] else [])))
        \<and> (valid_clock now \<and> (\<forall>e\<in>set entries. canonical_time (start_time e)) \<longrightarrow>
             (\<exists>ts. comprehension (\<lambda>e. time_to_minutes (start_time e)) entries' = Inr ts
                  \<and> sorted ts))"
    using b [of entries entries'] by blast
  with s m f c r w show ?thesis by blast
qed

text \<open>
  The file \<open>unsorted_file\<close> holds the entries of \<open>unsorted_log\<close>, the later one first.
  A read prints them in the order of their start times; the entry that
  \<^verbatim>\<open>write Email\<close> adds at 10:00 comes after the entry of 10:00 that the file has
  already, and the file that the write leaves holds the three entries in this order.
\<close>

theorem sort_invariant_stable_witness:
  "read_entries unsorted_file = Inr unsorted_log
   \<and> mode read_request = Read
   \<and> sort_entries unsorted_log = [unsorted_log ! 1, unsorted_log ! 0]
   \<and> (\<exists>rest. printed (main read_request unsorted_file sound_files ten_o_clock)
               = EntriesTable [unsorted_log ! 1, unsorted_log ! 0] # rest)
   \<and> mode task_request = Write
   \<and> add_entry (sort_entries unsorted_log) task_request ten_o_clock =
       Inr [unsorted_log ! 1, unsorted_log ! 0,
            \<lparr>description = ''Email'', start_time = ''10:00'', context_label = ''Project'',
              is_finish = False, is_minor = True\<rparr>]
   \<and> fault sound_files = None
   \<and> read_entries (storage_after (main task_request unsorted_file sound_files ten_o_clock)) =
       Inr [unsorted_log ! 1, unsorted_log ! 0,
            \<lparr>description = ''Email'', start_time = ''10:00'', context_label = ''Project'',
              is_finish = False, is_minor = True\<rparr>]
   \<and> valid_clock ten_o_clock
   \<and> list_all (\<lambda>e. canonical_time (start_time e)) unsorted_log
   \<and> (\<exists>ts. comprehension (\<lambda>e. time_to_minutes (start_time e))
             [unsorted_log ! 1, unsorted_log ! 0,
              \<lparr>description = ''Email'', start_time = ''10:00'', context_label = ''Project'',
                is_finish = False, is_minor = True\<rparr>] = Inr ts
          \<and> sorted ts)"
proof -
  have l: "read_entries unsorted_file = Inr unsorted_log"
    by (simp add: read_entries_def unsorted_file_def unsorted_log_def CsvFields_def str_bool_def)
  have q: "sort_entries unsorted_log = [unsorted_log ! 1, unsorted_log ! 0]"
    by (simp add: sort_entries_def unsorted_log_def)
  have md: "mode read_request = Read" "mode task_request = Write" "fault sound_files = None"
    by (simp_all add: read_request_def task_request_def sound_files_def)
  have s: "add_entry (sort_entries unsorted_log) task_request ten_o_clock =
       Inr [unsorted_log ! 1, unsorted_log ! 0,
            \<lparr>description = ''Email'', start_time = ''10:00'', context_label = ''Project'',
              is_finish = False, is_minor = True\<rparr>]"
    by (simp add: add_entry_def task_request_def unsorted_log_def ten_o_clock_def
        sort_entries_def strftime_defs Let_def)
  have v: "valid_clock ten_o_clock"
    by (simp add: valid_clock_def ten_o_clock_def)
  have c: "\<forall>e\<in>set unsorted_log. canonical_time (start_time e)"
    by (simp add: unsorted_log_def canonical_time_def strptime_defs strftime_defs)
  from sort_invariant_stable [of unsorted_log "sort_entries unsorted_log" read_request
      ten_o_clock "[]" unsorted_file unsorted_log sound_files "[]"] l md(1) q
  have r: "\<exists>rest. printed (main read_request unsorted_file sound_files ten_o_clock)
               = EntriesTable [unsorted_log ! 1, unsorted_log ! 0] # rest"
    by auto
  from sort_invariant_stable [of unsorted_log "sort_entries unsorted_log" task_request
      ten_o_clock "[]" unsorted_file unsorted_log sound_files
      "[unsorted_log ! 1, unsorted_log ! 0,
            \<lparr>description = ''Email'', start_time = ''10:00'', context_label = ''Project'',
              is_finish = False, is_minor = True\<rparr>]"] l md(2,3) s v c
  have w: "read_entries (storage_after (main task_request unsorted_file sound_files ten_o_clock)) =
       Inr [unsorted_log ! 1, unsorted_log ! 0,
            \<lparr>description = ''Email'', start_time = ''10:00'', context_label = ''Project'',
              is_finish = False, is_minor = True\<rparr>]"
    "\<exists>ts. comprehension (\<lambda>e. time_to_minutes (start_time e))
             [unsorted_log ! 1, unsorted_log ! 0,
              \<lparr>description = ''Email'', start_time = ''10:00'', context_label = ''Project'',
                is_finish = False, is_minor = True\<rparr>] = Inr ts
          \<and> sorted ts"
    by blast+
  from l md q r s w v c show ?thesis
    unfolding list_all_iff by blast
qed

subsection \<open>The day's file\<close>

text \<open>
  Claim C7 (persist and load). Whenever \<open>write_entries\<close> succeeds, reading the storage
  that it leaves returns the list that was written; the file holds the header and one
  row for each entry, whose two flags are the texts \<^verbatim>\<open>True\<close> and \<^verbatim>\<open>False\<close>.
\<close>

theorem persist_load_roundtrip:
  assumes "write_entries entries st fs = (st', None)"
  shows "read_entries st' = Inr entries
       \<and> day_file st' = Some (CsvFields # map (\<lambda>e.
             Fields (description e) (start_time e) (context_label e)
              (if is_finish e then ''True'' else ''False'')
              (if is_minor e then ''True'' else ''False'') []) entries)"
proof -
  from write_entries_success [OF assms]
  have "day_file st' = Some (CsvFields # map entry_row entries)"
    and r: "read_entries st' = Inr entries" .
  then have "day_file st' = Some (CsvFields # map (\<lambda>e.
             Fields (description e) (start_time e) (context_label e)
              (if is_finish e then ''True'' else ''False'')
              (if is_minor e then ''True'' else ''False'') []) entries)"
    by (simp add: entry_row_def str_bool_def)
  with r show ?thesis by simp
qed

theorem persist_load_roundtrip_witness:
  "write_entries minor_only_log no_file sound_files =
     (\<lparr>day_file = Some [CsvFields,
             Fields ''Email'' ''09:30'' ''Mail'' ''False'' ''True'' [],
             Fields '''' ''09:45'' ''Mail'' ''True'' ''False'' []],
        backups = []\<rparr>, None)
   \<and> read_entries \<lparr>day_file = Some [CsvFields,
             Fields ''Email'' ''09:30'' ''Mail'' ''False'' ''True'' [],
             Fields '''' ''09:45'' ''Mail'' ''True'' ''False'' []],
        backups = []\<rparr> = Inr minor_only_log"
proof -
  have w: "write_entries minor_only_log no_file sound_files =
     (\<lparr>day_file = Some [CsvFields,
             Fields ''Email'' ''09:30'' ''Mail'' ''False'' ''True'' [],
             Fields '''' ''09:45'' ''Mail'' ''True'' ''False'' []],
        backups = []\<rparr>, None)"
    by (simp add: write_entries_def no_file_def sound_files_def minor_only_log_def
        entry_row_def str_bool_def)
  from w persist_load_roundtrip [OF w, THEN conjunct1] show ?thesis
    by (rule conjI)
qed

subsection \<open>Finish entries\<close>

text \<open>
  Claim C8 (finish entries contribute zero). Two lists of durations for the same entries
  that differ at finish entries only give the same total minutes, the same major
  minutes, the same major records and the same records of the contexts; and removing
  the finish entries together with their durations changes none of the totals and none
  of the major records, so no major record comes from a finish entry.
\<close>

theorem finish_entries_contribute_zero:
  assumes "length ds = length entries" and "length ds' = length entries"
    and "\<forall>i<length entries. \<not> is_finish (entries ! i) \<longrightarrow> ds ! i = ds' ! i"
  shows "total_time ds entries = total_time ds' entries
       \<and> major_time ds entries = major_time ds' entries
       \<and> major_entries entries ds sf = major_entries entries ds' sf
       \<and> contextEntries (major_entries entries ds sf)
           = contextEntries (major_entries entries ds' sf)
       \<and> total_time ds entries =
           total_time (map snd (filter (\<lambda>(e, d). \<not> is_finish e) (zip entries ds)))
                      (map fst (filter (\<lambda>(e, d). \<not> is_finish e) (zip entries ds)))
       \<and> major_time ds entries =
           major_time (map snd (filter (\<lambda>(e, d). \<not> is_finish e) (zip entries ds)))
                      (map fst (filter (\<lambda>(e, d). \<not> is_finish e) (zip entries ds)))
       \<and> major_entries entries ds sf =
           major_entries (map fst (filter (\<lambda>(e, d). \<not> is_finish e) (zip entries ds)))
                         (map snd (filter (\<lambda>(e, d). \<not> is_finish e) (zip entries ds))) sf"
proof -
  from assms(1,2) have "length ds = length ds'"
    by simp
  from finish_durations_irrelevant [OF this assms(2,3), of sf]
    drop_finish_entries [of entries ds sf]
  show ?thesis by simp
qed

text \<open>
  The stop entry of \<open>stopped_log\<close>, read half an hour or ten hours after it was
  written, adds nothing to the 30 minutes of the task before it.
\<close>

theorem finish_entries_contribute_zero_witness:
  "length [30, 30 :: int] = length stopped_log
   \<and> length [30, 600 :: int] = length stopped_log
   \<and> \<not> is_finish (stopped_log ! 0) \<and> [30, 30 :: int] ! 0 = [30, 600] ! 0
   \<and> is_finish (stopped_log ! 1)
   \<and> total_time [30, 30] stopped_log = 30 \<and> total_time [30, 600] stopped_log = 30
   \<and> major_time [30, 30] stopped_log = 30 \<and> major_time [30, 600] stopped_log = 30
   \<and> major_entries stopped_log [30, 30] 1 = major_entries stopped_log [30, 600] 1
   \<and> major_entries stopped_log [30, 30] 1 =
       [\<lparr>major_description = ''Write code'', original_minutes = 30, minutes = 30,
         hours = 1 / 2, major_context = ''Project''\<rparr>]"
proof -
  have l: "length [30, 30 :: int] = length stopped_log"
    "length [30, 600 :: int] = length stopped_log"
    by (simp_all add: stopped_log_def)
  have a: "\<forall>i<length stopped_log.
         \<not> is_finish (stopped_log ! i) \<longrightarrow> [30, 30 :: int] ! i = [30, 600] ! i"
    by (simp add: stopped_log_def All_less_Suc)
  have v: "total_time [30, 30] stopped_log = 30" "major_time [30, 30] stopped_log = 30"
    "major_entries stopped_log [30, 30] 1 =
       [\<lparr>major_description = ''Write code'', original_minutes = 30, minutes = 30,
         hours = 1 / 2, major_context = ''Project''\<rparr>]"
    by (simp_all add: total_time_def major_time_def major_entries_def stopped_log_def)
  have f: "\<not> is_finish (stopped_log ! 0)" "is_finish (stopped_log ! 1)"
    by (simp_all add: stopped_log_def)
  from finish_entries_contribute_zero [OF l a, of 1] l v f
  show ?thesis by simp
qed

subsection \<open>The top level\<close>

text \<open>
  Claim C9, amended (error policy of the top level). Every exception that ends the body
  of the \<^verbatim>\<open>try\<close> statement is printed by the handler, followed by the traceback, after
  what the body had printed; the exceptions of the load, of the entry builder, of the
  write and of the summary end the body without another attempt, the ones of the load, of
  the entry builder and of the summary before the storage has changed, the one of the
  write with the storage as the failed write left it; and the program ends with the exit
  status 0.
\<close>

theorem top_level_error_policy:
  "exit_status (main a st fs now) = 0
   \<and> (\<forall>out st' err. try_body a st fs now = (out, st', Some err) \<longrightarrow>
         printed (main a st fs now) = out @ [ErrorLine err, Traceback err]
         \<and> storage_after (main a st fs now) = st')
   \<and> (\<forall>err. read_entries st = Inl err \<longrightarrow>
         try_body a st fs now = ([], st, Some err))
   \<and> (\<forall>loaded err. read_entries st = Inr loaded \<and> mode a = Write
          \<and> add_entry (sort_entries loaded) a now = Inl err \<longrightarrow>
         try_body a st fs now = ([], st, Some err))
   \<and> (\<forall>loaded entries' st' err. read_entries st = Inr loaded \<and> mode a = Write
          \<and> add_entry (sort_entries loaded) a now = Inr entries'
          \<and> write_entries entries' st fs = (st', Some err) \<longrightarrow>
         try_body a st fs now = ([NewEntries entries'], st', Some err))
   \<and> (\<forall>loaded err. read_entries st = Inr loaded \<and> mode a = Read
          \<and> print_summary (sort_entries loaded) now = Inl err \<longrightarrow>
         try_body a st fs now = ([EntriesTable (sort_entries loaded)], st, Some err))"
  by (auto simp: main_def try_body_def print_entries_def Let_def
      split: prod.splits option.splits sum.splits mode.splits)

text \<open>
  The four exceptions at the top level: a row of six fields, a time that is not
  \<^verbatim>\<open>HH:MM\<close>, a writer that fails after the header and leaves the file of the day
  with the header alone, a day without entries.
\<close>

theorem top_level_error_policy_witness:
  "read_entries long_row_file = Inl TypeError
   \<and> printed (main read_request long_row_file sound_files ten_o_clock)
       = [ErrorLine TypeError, Traceback TypeError]
   \<and> read_entries no_file = Inr [] \<and> mode bad_time_request = Write
   \<and> add_entry (sort_entries []) bad_time_request ten_o_clock = Inl ValueError
   \<and> printed (main bad_time_request no_file sound_files ten_o_clock)
       = [ErrorLine ValueError, Traceback ValueError]
   \<and> read_entries unsorted_file = Inr unsorted_log \<and> mode task_request = Write
   \<and> add_entry (sort_entries unsorted_log) task_request ten_o_clock
       = Inr [unsorted_log ! 1, unsorted_log ! 0,
              \<lparr>description = ''Email'', start_time = ''10:00'', context_label = ''Project'',
                is_finish = False, is_minor = True\<rparr>]
   \<and> write_entries [unsorted_log ! 1, unsorted_log ! 0,
              \<lparr>description = ''Email'', start_time = ''10:00'', context_label = ''Project'',
                is_finish = False, is_minor = True\<rparr>] unsorted_file full_disk_files
       = (\<lparr>day_file = Some [CsvFields],
            backups = [(''100000'', [CsvFields,
               Fields ''review'' ''10:00'' ''review'' ''False'' ''False'' [],
               Fields ''mail'' ''09:00'' ''mail'' ''False'' ''False'' []])]\<rparr>, Some OSError)
   \<and> printed (main task_request unsorted_file full_disk_files ten_o_clock)
       = [NewEntries [unsorted_log ! 1, unsorted_log ! 0,
              \<lparr>description = ''Email'', start_time = ''10:00'', context_label = ''Project'',
                is_finish = False, is_minor = True\<rparr>],
          ErrorLine OSError, Traceback OSError]
   \<and> day_file (storage_after (main task_request unsorted_file full_disk_files ten_o_clock))
       = Some [CsvFields]
   \<and> mode read_request = Read
   \<and> print_summary (sort_entries []) ten_o_clock = Inl ZeroDivisionError
   \<and> printed (main read_request no_file sound_files ten_o_clock)
       = [EntriesTable [], ErrorLine ZeroDivisionError, Traceback ZeroDivisionError]
   \<and> exit_status (main read_request no_file sound_files ten_o_clock) = 0"
proof -
  let ?new = "[unsorted_log ! 1, unsorted_log ! 0,
              \<lparr>description = ''Email'', start_time = ''10:00'', context_label = ''Project'',
                is_finish = False, is_minor = True\<rparr>]"
  let ?left = "\<lparr>day_file = Some [CsvFields],
            backups = [(''100000'', [CsvFields,
               Fields ''review'' ''10:00'' ''review'' ''False'' ''False'' [],
               Fields ''mail'' ''09:00'' ''mail'' ''False'' ''False'' []])]\<rparr>"
  have r1: "read_entries long_row_file = Inl TypeError"
    by (simp add: read_entries_def long_row_file_def CsvFields_def)
  have r2: "read_entries no_file = Inr []"
    by (simp add: read_entries_def no_file_def)
  have r3: "read_entries unsorted_file = Inr unsorted_log"
    by (simp add: read_entries_def unsorted_file_def unsorted_log_def CsvFields_def str_bool_def)
  have s: "sort_entries [] = []"
    by (simp add: sort_entries_def)
  have m: "mode bad_time_request = Write" "mode task_request = Write" "mode read_request = Read"
    by (simp_all add: bad_time_request_def task_request_def read_request_def)
  have a1: "add_entry (sort_entries []) bad_time_request ten_o_clock = Inl ValueError"
    by (simp add: s add_entry_def bad_time_request_def strptime_defs)
  have a2: "add_entry (sort_entries unsorted_log) task_request ten_o_clock = Inr ?new"
    by (simp add: add_entry_def task_request_def unsorted_log_def ten_o_clock_def
        sort_entries_def strftime_defs Let_def)
  have w: "write_entries ?new unsorted_file full_disk_files = (?left, Some OSError)"
    by (simp add: write_entries_def unsorted_file_def full_disk_files_def Let_def)
  have p: "print_summary (sort_entries []) ten_o_clock = Inl ZeroDivisionError"
    by (simp add: s print_summary_def durations_def time_minutes_def durations_of_def
        total_time_def major_time_def stretch_factor_def)
  from top_level_error_policy [of read_request long_row_file sound_files ten_o_clock] r1
  have c1: "printed (main read_request long_row_file sound_files ten_o_clock)
       = [ErrorLine TypeError, Traceback TypeError]"
    by simp
  from top_level_error_policy [of bad_time_request no_file sound_files ten_o_clock] r2 m(1) a1
  have c2: "printed (main bad_time_request no_file sound_files ten_o_clock)
       = [ErrorLine ValueError, Traceback ValueError]"
    by simp
  from top_level_error_policy [of task_request unsorted_file full_disk_files ten_o_clock]
    r3 m(2) a2 w
  have c3: "printed (main task_request unsorted_file full_disk_files ten_o_clock)
       = [NewEntries ?new, ErrorLine OSError, Traceback OSError]"
    "storage_after (main task_request unsorted_file full_disk_files ten_o_clock) = ?left"
    by simp_all
  from top_level_error_policy [of read_request no_file sound_files ten_o_clock] r2 m(3) p
  have c4: "printed (main read_request no_file sound_files ten_o_clock)
       = [EntriesTable [], ErrorLine ZeroDivisionError, Traceback ZeroDivisionError]"
    "exit_status (main read_request no_file sound_files ten_o_clock) = 0"
    by (simp_all add: s)
  from r1 r2 r3 m a1 a2 w p c1 c2 c3 c4 show ?thesis by simp
qed

text \<open>
  The claim as it was stated fails: the summary of a day without entries raises the
  exception of the division, and the program ends with the exit status 0.
\<close>

theorem top_level_exit_status_zero:
  "try_body read_request no_file sound_files ten_o_clock
     = ([EntriesTable []], no_file, Some ZeroDivisionError)
   \<and> \<not> exit_status (main read_request no_file sound_files ten_o_clock) \<noteq> 0"
  by (simp add: main_def try_body_def print_entries_def read_entries_def no_file_def
      read_request_def sort_entries_def print_summary_def durations_def time_minutes_def
      durations_of_def total_time_def major_time_def stretch_factor_def)

end
